theory Spec2Isabelle
  imports Main "HOL-Library.Word" "HOL-Library.AList"
begin

section \<open>The fingerprint scripts\<close>

text \<open>
  \<^verbatim>\<open>example/partial_md5.py\<close> and \<^verbatim>\<open>example/md5name.py\<close> read a binary file object.
  The file object is its bytes and its current position. An exception of Python is a
  value of \<open>py_error\<close>. The source's \<^verbatim>\<open>size\<close> and \<^verbatim>\<open>sum\<close> are written \<open>sz\<close> and
  \<open>acc\<close>, the names being constants of the logic.
\<close>

type_synonym byte = "8 word"

datatype py_error = InvalidSeek | AttributeError | KeyError | TypeError | BadRequest

record binary_io =
  file_bytes :: "byte list"
  file_pos :: nat

text \<open>A file freshly opened with mode \<^verbatim>\<open>rb\<close> (or \<^verbatim>\<open>BytesIO(data)\<close>): position 0.\<close>

definition open_rb :: "byte list \<Rightarrow> binary_io" where
  "open_rb bs = \<lparr>file_bytes = bs, file_pos = 0\<rparr>"

text \<open>
  \<^verbatim>\<open>file.read(size)\<close>: the next \<open>size\<close> bytes, fewer at the end of the file, none past
  it; a negative \<open>size\<close> reads everything that is left. The position moves past what
  was read.
\<close>

definition read :: "binary_io \<Rightarrow> int \<Rightarrow> byte list \<times> binary_io" where
  "read file sz =
     (let rest = drop (file_pos file) (file_bytes file);
          data = (if sz < 0 then rest else take (nat sz) rest)
      in (data, file\<lparr>file_pos := file_pos file + length data\<rparr>))"

text \<open>
  \<^verbatim>\<open>file.seek(offset, 0)\<close>: an absolute position, which may lie past the end; a
  negative offset raises.
\<close>

definition seek :: "binary_io \<Rightarrow> int \<Rightarrow> py_error + binary_io" where
  "seek file offset =
     (if offset < 0 then Inl InvalidSeek else Inr (file\<lparr>file_pos := nat offset\<rparr>))"

text \<open>
  \<^verbatim>\<open>hashlib.md5()\<close> is not part of the repository. Feeding an accumulator \<open>a\<close> and then
  \<open>b\<close> is feeding it \<open>a + b\<close>, so the accumulator is the list of bytes fed so far, and
  \<^verbatim>\<open>hexdigest\<close> is a parameter: the function from the bytes fed to the hexadecimal
  digest.

  The loop of \<^verbatim>\<open>partial_md5\<close>, over the values of \<open>i\<close> still to come:
  \<^verbatim>\<open>
    for i in range(0, 10):
        file.seek(step << (2 * i), 0)
        sample = file.read(size)
        if sample:
            m.update(sample)
        else:
            break
  \<close>
\<close>

fun sample_loop :: "int \<Rightarrow> int \<Rightarrow> nat list \<Rightarrow> binary_io \<Rightarrow> byte list \<Rightarrow> py_error + byte list" where
  "sample_loop step sz [] file m = Inr m"
| "sample_loop step sz (i # is) file m =
     (case seek file (push_bit (2 * i) step) of
        Inl e \<Rightarrow> Inl e
      | Inr file1 \<Rightarrow>
          (case read file1 sz of
             (sample, file2) \<Rightarrow>
               if sample \<noteq> [] then sample_loop step sz is file2 (m @ sample)
               else Inr m))"

definition partial_md5 :: "(byte list \<Rightarrow> string) \<Rightarrow> binary_io \<Rightarrow> int \<Rightarrow> int \<Rightarrow> py_error + string" where
  "partial_md5 hexdigest file step sz =
     (case read file sz of
        (sample, file1) \<Rightarrow>
          (case sample_loop step sz [0..<10] file1 sample of
             Inl e \<Rightarrow> Inl e
           | Inr m \<Rightarrow> Inr (hexdigest m)))"

text \<open>
  \<^verbatim>\<open>md5\<close> of \<^verbatim>\<open>example/md5name.py\<close>: chunks of 4096 bytes until a read returns nothing.
  \<^verbatim>\<open>
    while True:
        data = file.read(4096)
        if not data:
            break
        sum.update(data)
  \<close>
\<close>

function md5_loop :: "binary_io \<Rightarrow> byte list \<Rightarrow> byte list" where
  "md5_loop file acc =
     (case read file 4096 of
        (data, file1) \<Rightarrow> if data = [] then acc else md5_loop file1 (acc @ data))"
  by pat_completeness auto
termination
  by (relation "measure (\<lambda>(file, acc). length (file_bytes file) - file_pos file)")
     (auto simp: read_def Let_def)

definition md5 :: "(byte list \<Rightarrow> string) \<Rightarrow> binary_io \<Rightarrow> string" where
  "md5 hexdigest file = hexdigest (md5_loop file [])"

subsection \<open>The sparse digest as the specification words it\<close>

text \<open>
  A window is the \<open>n\<close> bytes from offset \<open>off\<close>, cut at the end of the stream. The
  samples are the window at offset 0, then the windows at \<open>step << (2 * i)\<close> for
  \<open>i = 0, \<dots>, 9\<close> up to the first empty one; the digest is taken over the samples in
  this order.
\<close>

definition window :: "byte list \<Rightarrow> nat \<Rightarrow> nat \<Rightarrow> byte list" where
  "window s off n = take n (drop off s)"

definition sparse_samples :: "byte list \<Rightarrow> nat \<Rightarrow> nat \<Rightarrow> byte list list" where
  "sparse_samples s step n =
     window s 0 n #
     takeWhile (\<lambda>w. w \<noteq> []) (map (\<lambda>i. window s (push_bit (2 * i) step) n) [0..<10])"

definition sparseDigest :: "(byte list \<Rightarrow> string) \<Rightarrow> byte list \<Rightarrow> nat \<Rightarrow> nat \<Rightarrow> string" where
  "sparseDigest hexdigest s step n = hexdigest (concat (sparse_samples s step n))"

definition fullDigest :: "(byte list \<Rightarrow> string) \<Rightarrow> byte list \<Rightarrow> string" where
  "fullDigest hexdigest s = hexdigest s"

section \<open>The sync server\<close>

subsection \<open>JSON values and the built-ins of Python\<close>

text \<open>
  What \<^verbatim>\<open>json.load\<close> and \<^verbatim>\<open>request.get_json\<close> return. A \<^verbatim>\<open>dict\<close> keeps its keys in
  insertion order, so it is an association list; \<open>'f\<close> is the type of Python's floats.
\<close>

datatype 'f json =
    JNull
  | JBool bool
  | JInt int
  | JFloat 'f
  | JStr string
  | JArr "'f json list"
  | JObj "(string \<times> 'f json) list"

type_synonym 'f dict = "(string \<times> 'f json) list"

text \<open>
  The conversions of Python that the server calls and that are not its own code:
  \<^verbatim>\<open>float(i)\<close> of an integer (it raises on overflow), \<^verbatim>\<open>float(s)\<close> and \<^verbatim>\<open>int(s)\<close> of a
  string (they raise on a string that is no number), \<^verbatim>\<open>int(x)\<close> of a float (it raises
  on an infinity or a NaN), whether a float is zero, and \<^verbatim>\<open>str(v)\<close> of a value that is
  not a string. \<open>None\<close> stands for the exception. They are parameters of the model.
\<close>

record 'f builtins =
  float_of_int :: "int \<Rightarrow> 'f option"
  float_of_str :: "string \<Rightarrow> 'f option"
  float_is_zero :: "'f \<Rightarrow> bool"
  int_of_float :: "'f \<Rightarrow> int option"
  int_of_str :: "string \<Rightarrow> int option"
  str_of :: "'f json \<Rightarrow> string"

text \<open>The truth value of \<^verbatim>\<open>if v:\<close>.\<close>

fun truthy :: "'f builtins \<Rightarrow> 'f json \<Rightarrow> bool" where
  "truthy bi JNull = False"
| "truthy bi (JBool b) = b"
| "truthy bi (JInt i) = (i \<noteq> 0)"
| "truthy bi (JFloat x) = (\<not> float_is_zero bi x)"
| "truthy bi (JStr s) = (s \<noteq> [])"
| "truthy bi (JArr vs) = (vs \<noteq> [])"
| "truthy bi (JObj kvs) = (kvs \<noteq> [])"

text \<open>\<^verbatim>\<open>float(v)\<close> and \<^verbatim>\<open>int(v)\<close>; \<open>None\<close> when Python raises (a \<^verbatim>\<open>bool\<close> is an \<^verbatim>\<open>int\<close>).\<close>

fun py_float :: "'f builtins \<Rightarrow> 'f json \<Rightarrow> 'f option" where
  "py_float bi (JFloat x) = Some x"
| "py_float bi (JInt i) = float_of_int bi i"
| "py_float bi (JBool b) = float_of_int bi (if b then 1 else 0)"
| "py_float bi (JStr s) = float_of_str bi s"
| "py_float bi JNull = None"
| "py_float bi (JArr vs) = None"
| "py_float bi (JObj kvs) = None"

fun py_int :: "'f builtins \<Rightarrow> 'f json \<Rightarrow> int option" where
  "py_int bi (JInt i) = Some i"
| "py_int bi (JBool b) = Some (if b then 1 else 0)"
| "py_int bi (JFloat x) = int_of_float bi x"
| "py_int bi (JStr s) = int_of_str bi s"
| "py_int bi JNull = None"
| "py_int bi (JArr vs) = None"
| "py_int bi (JObj kvs) = None"

text \<open>The text of \<^verbatim>\<open>{v}\<close> in an f-string.\<close>

fun py_format :: "'f builtins \<Rightarrow> 'f json \<Rightarrow> string" where
  "py_format bi (JStr s) = s"
| "py_format bi v = str_of bi v"

text \<open>\<^verbatim>\<open>d.get(k, default)\<close>, \<^verbatim>\<open>d[k] = v\<close> and \<^verbatim>\<open>d.setdefault(k, v)\<close>.\<close>

definition dict_get :: "'f dict \<Rightarrow> string \<Rightarrow> 'f json \<Rightarrow> 'f json" where
  "dict_get d k dflt = (case map_of d k of None \<Rightarrow> dflt | Some v \<Rightarrow> v)"

definition dict_set :: "'f dict \<Rightarrow> string \<Rightarrow> 'f json \<Rightarrow> 'f dict" where
  "dict_set d k v = AList.update k v d"

definition setdefault :: "'f dict \<Rightarrow> string \<Rightarrow> 'f json \<Rightarrow> 'f dict" where
  "setdefault d k v = (case map_of d k of None \<Rightarrow> d @ [(k, v)] | Some _ \<Rightarrow> d)"

subsection \<open>Requests, responses, files\<close>

text \<open>
  Of a request the handlers read the headers (by their lower-case names; the lookup of
  Flask ignores case), \<^verbatim>\<open>request.is_json\<close> and
  \<^verbatim>\<open>request.get_json()\<close>, which is \<open>None\<close> here when the body does not parse (Flask
  raises \<^verbatim>\<open>BadRequest\<close>). A handler returns the keyword arguments it gives to
  \<^verbatim>\<open>jsonify\<close> and the HTTP code.
\<close>

record 'f request =
  headers :: "string \<rightharpoonup> string"
  is_json :: bool
  get_json :: "'f json option"

datatype 'f response = Response (body: "'f dict") (status: int)

text \<open>
  A path is the list of its components below \<^verbatim>\<open>kss_root()\<close>. The state of the server
  is the content of its files, each one the value that \<^verbatim>\<open>json.loads\<close> reads back from
  what \<^verbatim>\<open>json.dumps\<close> wrote. Directories are not modelled: each handler creates the
  parent directory before it writes. A user name and a document name are one component
  each: names that contain a path separator are outside the model.
\<close>

type_synonym path = "string list"

type_synonym 'f files = "path \<rightharpoonup> 'f json"

definition kss_dir :: "string \<Rightarrow> path" where
  "kss_dir user = [user]"

definition kss_path :: "string \<Rightarrow> string \<Rightarrow> path" where
  "kss_path user file_md5 = kss_dir user @ [file_md5 @ ''.json'']"

definition kss_auth_file :: "string \<Rightarrow> path" where
  "kss_auth_file user = kss_dir user @ [''auth.json'']"

definition kss_auth_headers :: "'f request \<Rightarrow> string option \<times> string option" where
  "kss_auth_headers req = (headers req ''x-auth-user'', headers req ''x-auth-key'')"

text \<open>
  \<^verbatim>\<open>kss_auth\<close>: \<open>Inr (Some user)\<close> for the authorised user, \<open>Inr None\<close> for Python's
  \<^verbatim>\<open>None\<close>. Subscripting the loaded file raises \<^verbatim>\<open>KeyError\<close> on a missing key and
  \<^verbatim>\<open>TypeError\<close> when the file holds no object; \<^verbatim>\<open>and\<close> does not evaluate its second
  operand when the first is false.
\<close>

definition kss_auth :: "'f request \<Rightarrow> 'f files \<Rightarrow> py_error + string option" where
  "kss_auth req fs =
     (case kss_auth_headers req of
        (user_opt, password_opt) \<Rightarrow>
          (case user_opt of
             None \<Rightarrow> Inr None
           | Some user \<Rightarrow>
               if user = [] then Inr None
               else
                 (case password_opt of
                    None \<Rightarrow> Inr None
                  | Some password_md5 \<Rightarrow>
                      if password_md5 = [] then Inr None
                      else
                        (case fs (kss_auth_file user) of
                           None \<Rightarrow> Inr None
                         | Some (JObj auth) \<Rightarrow>
                             (case map_of auth ''x-auth-user'' of
                                None \<Rightarrow> Inl KeyError
                              | Some u \<Rightarrow>
                                  if u = JStr user then
                                    (case map_of auth ''x-auth-key'' of
                                       None \<Rightarrow> Inl KeyError
                                     | Some k \<Rightarrow>
                                         if k = JStr password_md5 then Inr (Some user)
                                         else Inr None)
                                  else Inr None)
                         | Some _ \<Rightarrow> Inl TypeError))))"

definition kss_error :: "int \<Rightarrow> string \<Rightarrow> int \<Rightarrow> 'f response" where
  "kss_error http_code message code =
     Response [(''message'', JStr message), (''code'', JInt code)] http_code"

definition kss_response :: "int \<Rightarrow> 'f dict \<Rightarrow> 'f response" where
  "kss_response http_code kwargs = Response kwargs http_code"

subsection \<open>The handlers\<close>

text \<open>
  A handler that writes returns its result and the files after it.
  \<^verbatim>\<open>REGISTRATION_DISABLED\<close> is read from the environment when the module is loaded: a
  parameter. \<^verbatim>\<open>js.get\<close> on a body that is no object raises \<^verbatim>\<open>AttributeError\<close>.
\<close>

definition register :: "bool \<Rightarrow> 'f request \<Rightarrow> 'f files \<Rightarrow> (py_error + 'f response) \<times> 'f files" where
  "register registration_disabled req fs =
     (if registration_disabled then
        (Inr (kss_error 403 ''User registration disabled'' 3001), fs)
      else if \<not> is_json req then (Inr (kss_error 403 ''Invalid request'' 2003), fs)
      else
        (case get_json req of
           None \<Rightarrow> (Inl BadRequest, fs)
         | Some (JObj js) \<Rightarrow>
             (case dict_get js ''username'' (JStr []) of
                JStr user \<Rightarrow>
                  if user \<noteq> [] then
                    (case dict_get js ''password'' (JStr []) of
                       JStr password_md5 \<Rightarrow>
                         if password_md5 = [] then
                           (Inr (kss_error 403 ''Invalid request'' 2003), fs)
                         else if fs (kss_auth_file user) \<noteq> None then
                           (Inr (kss_error 402 ''Username is already registered'' 2002), fs)
                         else
                           (Inr (kss_response 201 [(''username'', JStr user)]),
                            fs(kss_auth_file user \<mapsto>
                                 JObj [(''x-auth-user'', JStr user),
                                       (''x-auth-key'', JStr password_md5)]))
                     | _ \<Rightarrow> (Inr (kss_error 403 ''Invalid request'' 2003), fs))
                  else (Inr (kss_error 403 ''Invalid request'' 2003), fs)
              | _ \<Rightarrow> (Inr (kss_error 403 ''Invalid request'' 2003), fs))
         | Some _ \<Rightarrow> (Inl AttributeError, fs)))"

definition login :: "'f request \<Rightarrow> 'f files \<Rightarrow> py_error + 'f response" where
  "login req fs =
     (case kss_auth req fs of
        Inl e \<Rightarrow> Inl e
      | Inr (Some user) \<Rightarrow> Inr (kss_response 200 [(''authorized'', JStr ''OK'')])
      | Inr None \<Rightarrow> Inr (kss_error 401 ''Unauthorized'' 2001))"

text \<open>
  What \<^verbatim>\<open>push\<close> does to the body before it writes it (lines 281 to 292), \<open>now\<close> being
  \<^verbatim>\<open>int(time())\<close>:
  \<^verbatim>\<open>
    if percentage := js.get("percentage", None):
        try:
            js["percentage"] = float(percentage)
        except Exception:
            js["percentage"] = None
    js.setdefault("progress", None)
    js.setdefault("device", None)
    js.setdefault("device_id", None)
    js["timestamp"] = int(time())
  \<close>
\<close>

definition coerce_percentage :: "'f builtins \<Rightarrow> 'f dict \<Rightarrow> 'f dict" where
  "coerce_percentage bi js =
     (let percentage = dict_get js ''percentage'' JNull in
      if truthy bi percentage then
        (case py_float bi percentage of
           Some x \<Rightarrow> dict_set js ''percentage'' (JFloat x)
         | None \<Rightarrow> dict_set js ''percentage'' JNull)
      else js)"

definition stamped :: "'f builtins \<Rightarrow> int \<Rightarrow> 'f dict \<Rightarrow> 'f dict" where
  "stamped bi now js =
     (let js1 = coerce_percentage bi js;
          js2 = setdefault js1 ''progress'' JNull;
          js3 = setdefault js2 ''device'' JNull;
          js4 = setdefault js3 ''device_id'' JNull
      in dict_set js4 ''timestamp'' (JInt now))"

definition push :: "'f builtins \<Rightarrow> int \<Rightarrow> 'f request \<Rightarrow> 'f files \<Rightarrow> (py_error + 'f response) \<times> 'f files" where
  "push bi now req fs =
     (case kss_auth req fs of
        Inl e \<Rightarrow> (Inl e, fs)
      | Inr None \<Rightarrow> (Inr (kss_error 401 ''Unauthorized'' 2001), fs)
      | Inr (Some user) \<Rightarrow>
          if \<not> is_json req then (Inr (kss_error 403 ''Invalid request'' 2003), fs)
          else
            (case get_json req of
               None \<Rightarrow> (Inl BadRequest, fs)
             | Some (JObj js) \<Rightarrow>
                 (let document = dict_get js ''document'' JNull in
                  if truthy bi document then
                    (let js' = stamped bi now js;
                         path = kss_path user (py_format bi document)
                     in (Inr (kss_response 200
                                [(''document'', document),
                                 (''timestamp'', dict_get js' ''timestamp'' JNull)]),
                         fs(path \<mapsto> JObj js')))
                  else
                    (Inr (kss_error 403 ''Field 'document' not provided.'' 2004), fs))
             | Some _ \<Rightarrow> (Inl AttributeError, fs)))"

text \<open>
  The fields \<^verbatim>\<open>pull\<close> copies from the stored record (lines 327 to 349); a field whose
  conversion raises is left out.
\<close>

definition pull_fields :: "'f builtins \<Rightarrow> 'f dict \<Rightarrow> 'f dict" where
  "pull_fields bi js =
     (let percentage = dict_get js ''percentage'' JNull;
          res1 = (if truthy bi percentage then
                    (case py_float bi percentage of
                       Some x \<Rightarrow> [(''percentage'', JFloat x)]
                     | None \<Rightarrow> [])
                  else []);
          progress = dict_get js ''progress'' JNull;
          res2 = (if truthy bi progress then res1 @ [(''progress'', progress)] else res1);
          device = dict_get js ''device'' JNull;
          res3 = (if truthy bi device then res2 @ [(''device'', device)] else res2);
          device_id = dict_get js ''device_id'' JNull;
          res4 = (if truthy bi device_id then res3 @ [(''device_id'', device_id)] else res3);
          timestamp = dict_get js ''timestamp'' JNull
      in if truthy bi timestamp then
           (case py_int bi timestamp of
              Some t \<Rightarrow> res4 @ [(''timestamp'', JInt t)]
            | None \<Rightarrow> res4)
         else res4)"

definition pull :: "'f builtins \<Rightarrow> 'f request \<Rightarrow> string \<Rightarrow> 'f files \<Rightarrow> py_error + 'f response" where
  "pull bi req document fs =
     (case kss_auth req fs of
        Inl e \<Rightarrow> Inl e
      | Inr None \<Rightarrow> Inr (kss_error 401 ''Unauthorized'' 2001)
      | Inr (Some user) \<Rightarrow>
          (case fs (kss_path user document) of
             None \<Rightarrow> Inr (kss_response 200 [(''document'', JStr document)])
           | Some (JObj js) \<Rightarrow> Inr (kss_response 200 (pull_fields bi js))
           | Some _ \<Rightarrow> Inl AttributeError))"

subsection \<open>Instances for evaluation\<close>

text \<open>
  The closed instances below run the model on concrete inputs. They need a digest
  function and a table of built-ins. \<open>plain_digest\<close> is not MD5: it spells the bytes it
  is given as characters, so an instance shows which bytes were hashed.
  \<open>whole_floats\<close> takes the integers for the floats; it agrees with Python on the
  instances, which convert no string and no fractional number.
\<close>

definition plain_digest :: "byte list \<Rightarrow> string" where
  "plain_digest bs = map (\<lambda>b. char_of (unat b)) bs"

definition whole_floats :: "int builtins" where
  "whole_floats =
     \<lparr>float_of_int = Some,
      float_of_str = (\<lambda>s. None),
      float_is_zero = (\<lambda>x. x = 0),
      int_of_float = Some,
      int_of_str = (\<lambda>s. None),
      str_of = (\<lambda>v. [])\<rparr>"

text \<open>
  A registered user for the instances: the headers a client of \<open>alice\<close> sends, and the
  files after her registration with the password digest of the source's comment.
\<close>

definition alice_headers :: "string \<rightharpoonup> string" where
  "alice_headers =
     [''x-auth-user'' \<mapsto> ''alice'', ''x-auth-key'' \<mapsto> ''3858f62230ac3c915f300c664312c63f'']"

definition alice_files :: "int files" where
  "alice_files =
     [kss_auth_file ''alice'' \<mapsto>
        JObj [(''x-auth-user'', JStr ''alice''),
              (''x-auth-key'', JStr ''3858f62230ac3c915f300c664312c63f'')]]"

section \<open>The sparse digest\<close>

declare md5_loop.simps [simp del]

lemma file_bytes_read: "file_bytes (snd (read f n)) = file_bytes f"
  by (simp add: read_def Let_def)

lemma fst_read_seek:
  "0 \<le> off \<Longrightarrow> 0 \<le> sz \<Longrightarrow> seek f off = Inr f1 \<Longrightarrow>
     fst (read f1 sz) = window (file_bytes f) (nat off) (nat sz)"
  by (auto simp: read_def seek_def window_def Let_def)

text \<open>
  The loop, started anywhere: it appends the windows of the remaining values of \<open>i\<close>
  up to the first empty one.
\<close>

lemma sample_loop_samples:
  assumes "0 \<le> step" "0 \<le> sz"
  shows "sample_loop step sz is f m =
     Inr (m @ concat (takeWhile (\<lambda>w. w \<noteq> [])
            (map (\<lambda>i. window (file_bytes f) (push_bit (2 * i) (nat step)) (nat sz)) is)))"
proof (induction "is" arbitrary: f m)
  case Nil
  show ?case by simp
next
  case (Cons i "is")
  have off: "0 \<le> push_bit (2 * i) step" using assms(1) by simp
  define f1 where "f1 = f\<lparr>file_pos := nat (push_bit (2 * i) step)\<rparr>"
  have sk: "seek f (push_bit (2 * i) step) = Inr f1"
    using off by (simp add: seek_def f1_def)
  obtain sample f2 where rd: "read f1 sz = (sample, f2)" by (cases "read f1 sz")
  have s: "sample = window (file_bytes f) (push_bit (2 * i) (nat step)) (nat sz)"
    using fst_read_seek [OF off assms(2) sk] rd by (simp add: push_bit_nat_eq)
  have b: "file_bytes f2 = file_bytes f"
    using file_bytes_read [of f1 sz] rd by (simp add: f1_def)
  show ?case
    using Cons.IH [of f2 "m @ sample"] sk rd s b by simp
qed

lemma partial_md5_sparseDigest:
  assumes "0 \<le> step" "0 \<le> sz"
  shows "partial_md5 h (open_rb s) step sz = Inr (sparseDigest h s (nat step) (nat sz))"
proof -
  obtain sample f1 where rd: "read (open_rb s) sz = (sample, f1)"
    by (cases "read (open_rb s) sz")
  have s: "sample = window s 0 (nat sz)" and b: "file_bytes f1 = s"
    using rd assms(2) by (auto simp: read_def open_rb_def window_def Let_def)
  show ?thesis
    using sample_loop_samples [OF assms, of "[0..<10]" f1 sample] rd s b
    by (simp add: partial_md5_def sparseDigest_def sparse_samples_def)
qed

text \<open>
  C1. For a seekable stream at position 0 and a step and a sample size that are not
  negative, \<^verbatim>\<open>partial_md5\<close> returns, without raising, the digest of: the first
  \<open>size\<close> bytes, followed by the (at most \<open>size\<close>) bytes found at offset
  \<open>step << (2 * i)\<close> for \<open>i = 0, \<dots>, 9\<close> in this order, up to and without the first
  read that yields no byte; nothing is accumulated after that read.
\<close>

theorem partial_md5_algorithm:
  assumes "0 \<le> step" and "0 \<le> sz"
  shows "partial_md5 h (open_rb s) step sz =
           Inr (h (take (nat sz) s @
                   concat (takeWhile (\<lambda>w. w \<noteq> [])
                     (map (\<lambda>i. take (nat sz) (drop (push_bit (2 * i) (nat step)) s)) [0..<10]))))
         \<and> partial_md5 h (open_rb s) step sz = Inr (sparseDigest h s (nat step) (nat sz))"
  using partial_md5_sparseDigest [OF assms, of h s]
  by (simp add: sparseDigest_def sparse_samples_def window_def)

theorem partial_md5_algorithm_witness:
  "(0::int) \<le> 1 \<and> (0::int) \<le> 2 \<and>
   partial_md5 plain_digest (open_rb [1, 2, 3]) 1 2 = Inr (plain_digest [1, 2, 2, 3])"
  using partial_md5_algorithm [of 1 2 plain_digest "[1, 2, 3]"]
  by (simp add: upt_rec)

subsection \<open>Streams shorter than one sample\<close>

lemma take_drop_length_take: "take n xs @ drop (length (take n xs)) xs = xs"
  by (cases "n \<le> length xs") (simp_all add: min_def)

text \<open>\<^verbatim>\<open>md5\<close> hashes everything from the position of the file to its end.\<close>

lemma md5_loop_rest: "md5_loop f acc = acc @ drop (file_pos f) (file_bytes f)"
proof (induction f acc rule: md5_loop.induct)
  case (1 f acc)
  define rest where "rest = drop (file_pos f) (file_bytes f)"
  define data where "data = take 4096 rest"
  define f1 where "f1 = f\<lparr>file_pos := file_pos f + length data\<rparr>"
  have rd: "read f 4096 = (data, f1)"
    by (simp add: read_def Let_def data_def rest_def f1_def)
  show ?case
  proof (cases "data = []")
    case True
    then have "rest = []" by (simp add: data_def)
    with True rd show ?thesis
      by (subst md5_loop.simps) (simp add: rest_def)
  next
    case False
    have "md5_loop f1 (acc @ data) = (acc @ data) @ drop (file_pos f1) (file_bytes f1)"
      using "1.IH" [OF rd [symmetric] False] .
    also have "drop (file_pos f1) (file_bytes f1) = drop (length data) rest"
      by (simp add: f1_def rest_def add.commute)
    also have "(acc @ data) @ drop (length data) rest = acc @ rest"
      using take_drop_length_take [of 4096 rest] by (simp add: data_def)
    finally show ?thesis
      using False rd by (subst md5_loop.simps) (simp add: rest_def)
  qed
qed

lemma md5_open_rb: "md5 h (open_rb s) = h s"
  by (simp add: md5_def md5_loop_rest open_rb_def)

lemma windows_past_end:
  assumes "length s \<le> step"
  shows "takeWhile (\<lambda>w. w \<noteq> []) (map (\<lambda>i. window s (push_bit (2 * i) step) n) [0..<10]) = []"
proof -
  have "window s (push_bit 0 step) n = []"
    using assms by (simp add: window_def)
  then show ?thesis by (simp add: upt_rec)
qed

text \<open>
  C7. With the defaults (step 1024, sample size 1024), \<^verbatim>\<open>partial_md5\<close> of a stream
  shorter than 1024 bytes is \<^verbatim>\<open>md5\<close> of the stream, the digest of its whole content:
  the first sample is the whole stream, and the first read of the loop is empty.
\<close>

theorem partial_md5_short_stream:
  assumes "length s < 1024"
  shows "partial_md5 h (open_rb s) 1024 1024 = Inr (md5 h (open_rb s))
       \<and> md5 h (open_rb s) = fullDigest h s
       \<and> sparse_samples s 1024 1024 = [s]"
proof -
  have "partial_md5 h (open_rb s) 1024 1024 = Inr (sparseDigest h s (nat 1024) (nat 1024))"
    by (rule partial_md5_sparseDigest) simp_all
  moreover have "sparse_samples s 1024 1024 = [s]"
    using assms windows_past_end [of s 1024 1024]
    by (simp add: sparse_samples_def window_def)
  ultimately show ?thesis
    by (simp add: sparseDigest_def md5_open_rb fullDigest_def)
qed

theorem partial_md5_short_stream_witness:
  "length [1, 2, 3 :: byte] < 1024 \<and>
   partial_md5 plain_digest (open_rb [1, 2, 3]) 1024 1024 = Inr (md5 plain_digest (open_rb [1, 2, 3])) \<and>
   md5 plain_digest (open_rb [1, 2, 3]) = plain_digest [1, 2, 3]"
  using partial_md5_short_stream [of "[1, 2, 3]" plain_digest]
  by (simp add: fullDigest_def)

subsection \<open>The bytes the sparse digest depends on\<close>

text \<open>
  Two streams of one length that agree on every sampled byte have the same samples,
  hence the same digest. And the samples determine the sampled bytes: two streams of
  one length that differ in a sampled byte give \<^verbatim>\<open>hashlib\<close> different bytes to hash.
  Whether the digests then differ is a matter of MD5 and not of this code.
\<close>

lemma window_cong:
  assumes "length a = length b"
    and "\<And>j. off \<le> j \<Longrightarrow> j < off + n \<Longrightarrow> j < length a \<Longrightarrow> a ! j = b ! j"
  shows "window a off n = window b off n"
  unfolding window_def
proof (rule nth_equalityI)
  show "length (take n (drop off a)) = length (take n (drop off b))"
    using assms(1) by simp
next
  fix t assume "t < length (take n (drop off a))"
  then have t: "t < n" "off + t < length a" by auto
  then show "take n (drop off a) ! t = take n (drop off b) ! t"
    using assms by simp
qed

lemma sparse_samples_cong:
  assumes "length a = length b"
    and "\<And>j. j < length a \<Longrightarrow>
           (j < n \<or> (\<exists>i<10. push_bit (2 * i) step \<le> j \<and> j < push_bit (2 * i) step + n)) \<Longrightarrow>
           a ! j = b ! j"
  shows "sparse_samples a step n = sparse_samples b step n"
proof -
  have 0: "window a 0 n = window b 0 n"
    using assms by (intro window_cong) auto
  have i: "window a (push_bit (2 * i) step) n = window b (push_bit (2 * i) step) n" if "i < 10" for i
    using assms that by (intro window_cong) auto
  have "map (\<lambda>i. window a (push_bit (2 * i) step) n) [0..<10] =
        map (\<lambda>i. window b (push_bit (2 * i) step) n) [0..<10]"
    by (rule map_cong) (simp_all add: i)
  then show ?thesis unfolding sparse_samples_def 0 by (rule arg_cong)
qed

lemma length_window: "length (window s off n) = min n (length s - off)"
  by (simp add: window_def)

lemma takeWhile_same_shape:
  assumes "length xs = length ys" and "\<forall>i<length xs. length (xs ! i) = length (ys ! i)"
  shows "map length (takeWhile (\<lambda>w. w \<noteq> []) xs) = map length (takeWhile (\<lambda>w. w \<noteq> []) ys)"
  using assms
proof (induction xs ys rule: list_induct2)
  case Nil
  show ?case by simp
next
  case (Cons x xs y ys)
  have h: "length x = length y" using Cons.prems by auto
  have t: "\<forall>i<length xs. length (xs ! i) = length (ys ! i)" using Cons.prems by auto
  from h have "x = [] \<longleftrightarrow> y = []" by auto
  with h Cons.IH [OF t] show ?case by simp
qed

lemma sparse_samples_shape:
  assumes "length a = length b"
  shows "map length (sparse_samples a step n) = map length (sparse_samples b step n)"
  unfolding sparse_samples_def
  using assms takeWhile_same_shape [of "map (\<lambda>i. window a (push_bit (2 * i) step) n) [0..<10]"
      "map (\<lambda>i. window b (push_bit (2 * i) step) n) [0..<10]"]
  by (simp add: length_window)

lemma takeWhile_reaches:
  assumes "i < length xs" and "\<forall>k\<le>i. P (xs ! k)"
  shows "i < length (takeWhile P xs) \<and> takeWhile P xs ! i = xs ! i"
proof -
  have "i < length (takeWhile P xs)"
  proof (rule ccontr)
    assume "\<not> i < length (takeWhile P xs)"
    then have le: "length (takeWhile P xs) \<le> i" by simp
    with assms(1) have "length (takeWhile P xs) < length xs" by simp
    then have "\<not> P (xs ! length (takeWhile P xs))" by (rule nth_length_takeWhile)
    with assms(2) le show False by blast
  qed
  then show ?thesis by (simp add: takeWhile_nth)
qed

lemma window_nth:
  assumes "off \<le> j" "j < off + n" "j < length s"
  shows "window s off n ! (j - off) = s ! j"
  using assms by (simp add: window_def)

lemma window_nonempty: "off < length s \<Longrightarrow> 0 < n \<Longrightarrow> window s off n \<noteq> []"
  by (simp add: window_def)

lemma sampled_bytes_determined:
  assumes len: "length a = length b"
    and eq: "concat (sparse_samples a step n) = concat (sparse_samples b step n)"
    and j: "j < length a"
    and w: "j < n \<or> (\<exists>i<10. push_bit (2 * i) step \<le> j \<and> j < push_bit (2 * i) step + n)"
  shows "a ! j = b ! j"
proof -
  have sh: "map length (sparse_samples a step n) = map length (sparse_samples b step n)"
    by (rule sparse_samples_shape [OF len])
  have "sparse_samples a step n = sparse_samples b step n"
  proof (rule concat_injective [OF eq])
    show l: "length (sparse_samples a step n) = length (sparse_samples b step n)"
      using sh by (rule map_eq_imp_length_eq)
    show "\<forall>(x, y)\<in>set (zip (sparse_samples a step n) (sparse_samples b step n)). length x = length y"
    proof (clarsimp simp: set_zip)
      fix k assume k: "k < length (sparse_samples a step n)" "k < length (sparse_samples b step n)"
      have "map length (sparse_samples a step n) ! k = map length (sparse_samples b step n) ! k"
        using sh by simp
      with k show "length (sparse_samples a step n ! k) = length (sparse_samples b step n ! k)"
        by simp
    qed
  qed
  then have w0: "window a 0 n = window b 0 n"
    and tw: "takeWhile (\<lambda>w. w \<noteq> []) (map (\<lambda>i. window a (push_bit (2 * i) step) n) [0..<10]) =
             takeWhile (\<lambda>w. w \<noteq> []) (map (\<lambda>i. window b (push_bit (2 * i) step) n) [0..<10])"
    by (simp_all add: sparse_samples_def)
  from w show ?thesis
  proof
    assume "j < n"
    then have "window a 0 n ! j = a ! j" "window b 0 n ! j = b ! j"
      using j len by (simp_all add: window_def)
    with w0 show ?thesis by simp
  next
    assume "\<exists>i<10. push_bit (2 * i) step \<le> j \<and> j < push_bit (2 * i) step + n"
    then obtain i where i: "i < 10" and lo: "push_bit (2 * i) step \<le> j"
      and hi: "j < push_bit (2 * i) step + n" by blast
    let ?A = "map (\<lambda>i. window a (push_bit (2 * i) step) n) [0..<10]"
    let ?B = "map (\<lambda>i. window b (push_bit (2 * i) step) n) [0..<10]"
    have n: "0 < n" using lo hi by simp
    have mono: "push_bit (2 * k) step \<le> push_bit (2 * i) step" if "k \<le> i" for k
      using that by (simp add: push_bit_eq_mult power_increasing)
    have neA: "\<forall>k\<le>i. ?A ! k \<noteq> []"
    proof (intro allI impI)
      fix k assume k: "k \<le> i"
      with i have "?A ! k = window a (push_bit (2 * k) step) n" by simp
      moreover have "push_bit (2 * k) step < length a" using mono [OF k] lo j by simp
      ultimately show "?A ! k \<noteq> []" using n by (simp add: window_nonempty)
    qed
    have neB: "\<forall>k\<le>i. ?B ! k \<noteq> []"
    proof (intro allI impI)
      fix k assume k: "k \<le> i"
      with i have "?B ! k = window b (push_bit (2 * k) step) n" by simp
      moreover have "push_bit (2 * k) step < length b" using mono [OF k] lo j len by simp
      ultimately show "?B ! k \<noteq> []" using n by (simp add: window_nonempty)
    qed
    have "takeWhile (\<lambda>w. w \<noteq> []) ?A ! i = ?A ! i"
      using takeWhile_reaches [of i ?A "\<lambda>w. w \<noteq> []"] neA i by simp
    moreover have "takeWhile (\<lambda>w. w \<noteq> []) ?B ! i = ?B ! i"
      using takeWhile_reaches [of i ?B "\<lambda>w. w \<noteq> []"] neB i by simp
    ultimately have "?A ! i = ?B ! i" using tw by simp
    then have "window a (push_bit (2 * i) step) n = window b (push_bit (2 * i) step) n"
      using i by simp
    moreover have "window a (push_bit (2 * i) step) n ! (j - push_bit (2 * i) step) = a ! j"
      using lo hi j by (rule window_nth)
    moreover have "window b (push_bit (2 * i) step) n ! (j - push_bit (2 * i) step) = b ! j"
      using lo hi j len by (intro window_nth) simp_all
    ultimately show ?thesis by simp
  qed
qed

lemma partial_md5_same_windows:
  assumes "0 \<le> step" and "0 \<le> sz" and "length a = length b"
    and "\<And>j. j < length a \<Longrightarrow>
           (j < nat sz \<or>
            (\<exists>i<10. push_bit (2 * i) (nat step) \<le> j \<and> j < push_bit (2 * i) (nat step) + nat sz)) \<Longrightarrow>
           a ! j = b ! j"
  shows "partial_md5 h (open_rb a) step sz = partial_md5 h (open_rb b) step sz"
  using sparse_samples_cong [of a b "nat sz" "nat step"] assms(3,4)
  by (simp add: partial_md5_sparseDigest [OF assms(1,2)] sparseDigest_def)

section \<open>The handlers of the sync server\<close>

subsection \<open>Authentication\<close>

lemma alice_auth:
  "kss_auth \<lparr>headers = alice_headers, is_json = j, get_json = b\<rparr> alice_files = Inr (Some ''alice'')"
  by (simp add: kss_auth_def kss_auth_headers_def alice_headers_def alice_files_def
      kss_auth_file_def kss_dir_def)

lemma register_alice:
  "register False
     \<lparr>headers = Map.empty, is_json = True,
      get_json = Some (JObj [(''username'', JStr ''alice''),
                             (''password'', JStr ''3858f62230ac3c915f300c664312c63f'')])\<rparr> Map.empty =
   (Inr (Response [(''username'', JStr ''alice'')] 201), alice_files)"
  by (simp add: register_def dict_get_def kss_response_def alice_files_def)

lemma kss_auth_get_json [simp]: "kss_auth (req\<lparr>get_json := b\<rparr>) fs = kss_auth req fs"
  by (simp add: kss_auth_def kss_auth_headers_def)

text \<open>
  On a credential file as \<^verbatim>\<open>register\<close> writes it (a user name and a digest, neither
  empty), \<^verbatim>\<open>kss_auth\<close> returns the user when both headers are there and the stored
  digest is the key, and \<^verbatim>\<open>None\<close> in every other case; it does not raise.
\<close>

lemma kss_auth_registered:
  assumes "\<And>c. fs (kss_auth_file user) = Some c \<Longrightarrow>
             user \<noteq> [] \<and>
             (\<exists>p. p \<noteq> [] \<and> c = JObj [(''x-auth-user'', JStr user), (''x-auth-key'', JStr p)])"
    and "headers req ''x-auth-user'' = Some user"
  shows "kss_auth req fs =
           (if \<exists>key. headers req ''x-auth-key'' = Some key \<and>
                 fs (kss_auth_file user) =
                   Some (JObj [(''x-auth-user'', JStr user), (''x-auth-key'', JStr key)])
            then Inr (Some user) else Inr None)"
proof (cases "fs (kss_auth_file user)")
  case None
  then show ?thesis
    using assms(2) by (simp add: kss_auth_def kss_auth_headers_def split: option.splits)
next
  case (Some c)
  from assms(1) [OF Some] obtain p where u: "user \<noteq> []" and p: "p \<noteq> []"
    and c: "c = JObj [(''x-auth-user'', JStr user), (''x-auth-key'', JStr p)]" by blast
  show ?thesis
    using assms(2) Some u p c
    by (auto simp: kss_auth_def kss_auth_headers_def split: option.splits)
qed

text \<open>
  When \<^verbatim>\<open>kss_auth\<close> succeeds, whatever the files hold: both headers are there and not
  empty, the credential file of the user holds an object, and its two entries are the
  user name and the key of the headers.
\<close>

lemma kss_auth_succeeds_iff:
  "kss_auth req fs = Inr (Some user) \<longleftrightarrow>
     user \<noteq> [] \<and> headers req ''x-auth-user'' = Some user \<and>
     (\<exists>key auth. key \<noteq> [] \<and> headers req ''x-auth-key'' = Some key \<and>
        fs (kss_auth_file user) = Some (JObj auth) \<and>
        map_of auth ''x-auth-user'' = Some (JStr user) \<and>
        map_of auth ''x-auth-key'' = Some (JStr key))"
  by (auto simp: kss_auth_def kss_auth_headers_def
      split: option.splits json.splits if_splits)

lemma kss_auth_no_user:
  "headers req ''x-auth-user'' = None \<Longrightarrow> kss_auth req fs = Inr None"
  by (simp add: kss_auth_def kss_auth_headers_def)

text \<open>Whatever check failed, the answer is the same one, and nothing is written.\<close>

lemma unauthorized_response:
  assumes "kss_auth req fs = Inr None"
  shows "push bi now req fs =
           (Inr (Response [(''message'', JStr ''Unauthorized''), (''code'', JInt 2001)] 401), fs)"
    and "pull bi req document fs =
           Inr (Response [(''message'', JStr ''Unauthorized''), (''code'', JInt 2001)] 401)"
    and "login req fs =
           Inr (Response [(''message'', JStr ''Unauthorized''), (''code'', JInt 2001)] 401)"
  using assms by (simp_all add: push_def pull_def login_def kss_error_def)

text \<open>The progress file of the document name \<open>auth\<close> is the credential file.\<close>

lemma kss_path_auth_alias: "kss_path user ''auth'' = kss_auth_file user"
  by (simp add: kss_path_def kss_auth_file_def)

subsection \<open>Push\<close>

lemma map_of_dict_set: "map_of (dict_set d k v) = (map_of d)(k \<mapsto> v)"
  by (simp add: dict_set_def update_conv')

lemma map_of_setdefault:
  "map_of (setdefault d k v) =
     (case map_of d k of None \<Rightarrow> (map_of d)(k \<mapsto> v) | Some _ \<Rightarrow> map_of d)"
  by (auto simp: setdefault_def map_add_def fun_eq_iff split: option.splits)

lemma map_of_coerce_percentage:
  "map_of (coerce_percentage bi js) k =
     (if k = ''percentage'' \<and> truthy bi (dict_get js ''percentage'' JNull)
      then Some (case py_float bi (dict_get js ''percentage'' JNull) of
                   Some x \<Rightarrow> JFloat x | None \<Rightarrow> JNull)
      else map_of js k)"
  by (simp add: coerce_percentage_def Let_def map_of_dict_set split: option.splits)

lemma map_of_stamped:
  "map_of (stamped bi now js) k =
     (if k = ''timestamp'' then Some (JInt now)
      else if k = ''progress'' \<or> k = ''device'' \<or> k = ''device_id''
        then Some (dict_get js k JNull)
      else map_of (coerce_percentage bi js) k)"
  by (simp add: stamped_def Let_def map_of_dict_set map_of_setdefault map_of_coerce_percentage
      dict_get_def split: option.splits)

lemma push_ok:
  assumes "kss_auth req fs = Inr (Some user)" and "is_json req"
    and "get_json req = Some (JObj js)"
    and "truthy bi (dict_get js ''document'' JNull)"
  shows "push bi now req fs =
           (Inr (Response [(''document'', dict_get js ''document'' JNull),
                           (''timestamp'', JInt now)] 200),
            fs(kss_path user (py_format bi (dict_get js ''document'' JNull)) \<mapsto>
                 JObj (stamped bi now js)))"
  using assms
  by (simp add: push_def kss_response_def Let_def dict_get_def [of "stamped bi now js"]
      map_of_stamped)

text \<open>
  C2. An authenticated push with a document fingerprint answers 200 with the document
  and the timestamp \<open>now\<close>, the server's time at the call, and leaves at the key of
  the user and the document the record made from the pushed body alone: what was
  stored there before plays no part. In this record the timestamp is \<open>now\<close> whatever
  the client sent, and every other field the client sent, the percentage apart (it is
  coerced), is as the client sent it.
\<close>

theorem push_replaces_record:
  assumes "kss_auth req fs = Inr (Some user)" and "is_json req"
    and "get_json req = Some (JObj js)"
    and "map_of js ''document'' = Some document" and "truthy bi document"
  shows "fst (push bi now req fs) =
           Inr (Response [(''document'', document), (''timestamp'', JInt now)] 200)
       \<and> snd (push bi now req fs) =
           fs(kss_path user (py_format bi document) \<mapsto> JObj (stamped bi now js))
       \<and> map_of (stamped bi now js) ''timestamp'' = Some (JInt now)
       \<and> (\<forall>k v. k \<noteq> ''timestamp'' \<and> k \<noteq> ''percentage'' \<and> map_of js k = Some v
              \<longrightarrow> map_of (stamped bi now js) k = Some v)"
proof -
  have d: "dict_get js ''document'' JNull = document"
    using assms(4) by (simp add: dict_get_def)
  have "push bi now req fs =
           (Inr (Response [(''document'', document), (''timestamp'', JInt now)] 200),
            fs(kss_path user (py_format bi document) \<mapsto> JObj (stamped bi now js)))"
    using push_ok [OF assms(1-3), of bi now] assms(5) d by simp
  then show ?thesis
    by (simp add: map_of_stamped map_of_coerce_percentage dict_get_def)
qed

theorem push_replaces_record_witness:
  "kss_auth \<lparr>headers = alice_headers, is_json = True,
              get_json = Some (JObj [(''document'', JStr ''d1''), (''device'', JStr ''X''),
                                     (''timestamp'', JInt 5)])\<rparr> alice_files = Inr (Some ''alice'')
   \<and> truthy whole_floats (JStr ''d1'')
   \<and> fst (push whole_floats 1751935136
        \<lparr>headers = alice_headers, is_json = True,
         get_json = Some (JObj [(''document'', JStr ''d1''), (''device'', JStr ''X''),
                                (''timestamp'', JInt 5)])\<rparr> alice_files) =
      Inr (Response [(''document'', JStr ''d1''), (''timestamp'', JInt 1751935136)] 200)
   \<and> snd (push whole_floats 1751935136
        \<lparr>headers = alice_headers, is_json = True,
         get_json = Some (JObj [(''document'', JStr ''d1''), (''device'', JStr ''X''),
                                (''timestamp'', JInt 5)])\<rparr> alice_files) =
      alice_files(kss_path ''alice'' ''d1'' \<mapsto>
        JObj [(''document'', JStr ''d1''), (''device'', JStr ''X''),
              (''timestamp'', JInt 1751935136), (''progress'', JNull), (''device_id'', JNull)])"
  using push_replaces_record [of "\<lparr>headers = alice_headers, is_json = True,
              get_json = Some (JObj [(''document'', JStr ''d1''), (''device'', JStr ''X''),
                                     (''timestamp'', JInt 5)])\<rparr>" alice_files "''alice''"
          "[(''document'', JStr ''d1''), (''device'', JStr ''X''), (''timestamp'', JInt 5)]"
          "JStr ''d1''" whole_floats 1751935136]
    alice_auth [of True]
  by (simp add: stamped_def coerce_percentage_def setdefault_def dict_set_def dict_get_def)

text \<open>
  C4 (amended). After a successful push the persisted record holds: for each of
  \<open>progress\<close>, \<open>device\<close>, \<open>device_id\<close> the value the client sent, and JSON null when
  the client sent none (the key is present, with value null); for \<open>percentage\<close>
  nothing when the client sent none, the float when the value is truthy and converts,
  null when it is truthy and does not convert, the value itself when it is falsy; the
  server's timestamp; and every other field of the body unchanged.
\<close>

theorem push_stores_nulls:
  assumes "kss_auth req fs = Inr (Some user)" and "is_json req"
    and "get_json req = Some (JObj js)"
    and "map_of js ''document'' = Some document" and "truthy bi document"
  shows "snd (push bi now req fs) (kss_path user (py_format bi document)) =
           Some (JObj (stamped bi now js))
       \<and> (\<forall>k \<in> {''progress'', ''device'', ''device_id''}.
             map_of (stamped bi now js) k =
               Some (case map_of js k of None \<Rightarrow> JNull | Some v \<Rightarrow> v))
       \<and> map_of (stamped bi now js) ''percentage'' =
             (case map_of js ''percentage'' of
                None \<Rightarrow> None
              | Some p \<Rightarrow>
                  if truthy bi p then
                    Some (case py_float bi p of Some x \<Rightarrow> JFloat x | None \<Rightarrow> JNull)
                  else Some p)
       \<and> map_of (stamped bi now js) ''timestamp'' = Some (JInt now)
       \<and> (\<forall>k. k \<notin> {''percentage'', ''progress'', ''device'', ''device_id'', ''timestamp''}
             \<longrightarrow> map_of (stamped bi now js) k = map_of js k)"
proof -
  have d: "dict_get js ''document'' JNull = document"
    using assms(4) by (simp add: dict_get_def)
  have "snd (push bi now req fs) (kss_path user (py_format bi document)) =
          Some (JObj (stamped bi now js))"
    using push_ok [OF assms(1-3), of bi now] assms(5) d by simp
  moreover have "\<forall>k \<in> {''progress'', ''device'', ''device_id''}.
             map_of (stamped bi now js) k =
               Some (case map_of js k of None \<Rightarrow> JNull | Some v \<Rightarrow> v)"
    by (simp add: map_of_stamped dict_get_def)
  moreover have "map_of (stamped bi now js) ''percentage'' =
             (case map_of js ''percentage'' of
                None \<Rightarrow> None
              | Some p \<Rightarrow>
                  if truthy bi p then
                    Some (case py_float bi p of Some x \<Rightarrow> JFloat x | None \<Rightarrow> JNull)
                  else Some p)"
    by (simp add: map_of_stamped map_of_coerce_percentage dict_get_def split: option.splits)
  moreover have "map_of (stamped bi now js) ''timestamp'' = Some (JInt now)"
    by (simp add: map_of_stamped)
  moreover have "\<forall>k. k \<notin> {''percentage'', ''progress'', ''device'', ''device_id'', ''timestamp''}
             \<longrightarrow> map_of (stamped bi now js) k = map_of js k"
    by (simp add: map_of_stamped map_of_coerce_percentage)
  ultimately show ?thesis by blast
qed

theorem push_stores_nulls_witness:
  "kss_auth \<lparr>headers = alice_headers, is_json = True,
              get_json = Some (JObj [(''document'', JStr ''d2''), (''percentage'', JInt 1)])\<rparr>
      alice_files = Inr (Some ''alice'')
   \<and> truthy whole_floats (JStr ''d2'')
   \<and> snd (push whole_floats 1751935136
        \<lparr>headers = alice_headers, is_json = True,
         get_json = Some (JObj [(''document'', JStr ''d2''), (''percentage'', JInt 1)])\<rparr>
        alice_files) (kss_path ''alice'' ''d2'') =
      Some (JObj [(''document'', JStr ''d2''), (''percentage'', JFloat 1), (''progress'', JNull),
                  (''device'', JNull), (''device_id'', JNull), (''timestamp'', JInt 1751935136)])"
  using push_stores_nulls [of "\<lparr>headers = alice_headers, is_json = True,
              get_json = Some (JObj [(''document'', JStr ''d2''), (''percentage'', JInt 1)])\<rparr>"
          alice_files "''alice''" "[(''document'', JStr ''d2''), (''percentage'', JInt 1)]"
          "JStr ''d2''" whole_floats 1751935136]
    alice_auth [of True]
  by (simp add: stamped_def coerce_percentage_def setdefault_def dict_set_def dict_get_def
      whole_floats_def)

text \<open>
  The claim as it stands fails: a push of a document and a percentage that is no
  number leaves \<open>percentage\<close>, \<open>progress\<close>, \<open>device\<close> and \<open>device_id\<close> in the file, each
  with the value null.
\<close>

theorem push_stores_nulls_counterexample:
  "snd (push whole_floats 1751935136
          \<lparr>headers = alice_headers, is_json = True,
           get_json = Some (JObj [(''document'', JStr ''d1''), (''percentage'', JStr ''half'')])\<rparr>
          alice_files) (kss_path ''alice'' ''d1'') =
     Some (JObj [(''document'', JStr ''d1''), (''percentage'', JNull), (''progress'', JNull),
                 (''device'', JNull), (''device_id'', JNull), (''timestamp'', JInt 1751935136)])"
  by (simp add: push_def alice_auth Let_def dict_get_def stamped_def coerce_percentage_def
      setdefault_def dict_set_def whole_floats_def kss_response_def)

text \<open>
  C10. An authenticated push whose JSON body has a \<open>document\<close> field with a falsy
  value (the empty string, null, zero, false, an empty list or object) is answered
  with 403 and code 2004, the answer to the same body without the field, and writes
  nothing.
\<close>

theorem push_falsy_document:
  assumes "kss_auth req fs = Inr (Some user)" and "is_json req"
    and "get_json req = Some (JObj js)"
    and "map_of js ''document'' = Some v" and "\<not> truthy bi v"
  shows "push bi now req fs =
           (Inr (Response [(''message'', JStr ''Field 'document' not provided.''),
                           (''code'', JInt 2004)] 403), fs)
       \<and> push bi now (req\<lparr>get_json := Some (JObj (AList.delete ''document'' js))\<rparr>) fs =
           push bi now req fs"
  using assms
  by (simp add: push_def dict_get_def kss_error_def Let_def delete_conv')

theorem push_falsy_document_witness:
  "kss_auth \<lparr>headers = alice_headers, is_json = True,
              get_json = Some (JObj [(''document'', JStr [])])\<rparr> alice_files = Inr (Some ''alice'')
   \<and> \<not> truthy whole_floats (JStr [])
   \<and> push whole_floats 1751935136
        \<lparr>headers = alice_headers, is_json = True, get_json = Some (JObj [(''document'', JStr [])])\<rparr>
        alice_files =
      (Inr (Response [(''message'', JStr ''Field 'document' not provided.''), (''code'', JInt 2004)] 403),
       alice_files)"
  using push_falsy_document [of "\<lparr>headers = alice_headers, is_json = True,
              get_json = Some (JObj [(''document'', JStr [])])\<rparr>" alice_files "''alice''"
          "[(''document'', JStr [])]" "JStr []" whole_floats 1751935136]
    alice_auth [of True "Some (JObj [(''document'', JStr [])])"]
  by simp

subsection \<open>Pull\<close>

text \<open>
  The copied fields, one after the other: \<^verbatim>\<open>pull_fields\<close> is the concatenation of what
  each of the five keys contributes.
\<close>

lemma pull_fields_concat:
  "pull_fields bi js =
     (if truthy bi (dict_get js ''percentage'' JNull) then
        (case py_float bi (dict_get js ''percentage'' JNull) of
           Some x \<Rightarrow> [(''percentage'', JFloat x)] | None \<Rightarrow> [])
      else [])
     @ (if truthy bi (dict_get js ''progress'' JNull)
        then [(''progress'', dict_get js ''progress'' JNull)] else [])
     @ (if truthy bi (dict_get js ''device'' JNull)
        then [(''device'', dict_get js ''device'' JNull)] else [])
     @ (if truthy bi (dict_get js ''device_id'' JNull)
        then [(''device_id'', dict_get js ''device_id'' JNull)] else [])
     @ (if truthy bi (dict_get js ''timestamp'' JNull) then
        (case py_int bi (dict_get js ''timestamp'' JNull) of
           Some t \<Rightarrow> [(''timestamp'', JInt t)] | None \<Rightarrow> [])
      else [])"
  unfolding pull_fields_def Let_def
  by (simp split: option.splits)

text \<open>
  Where the user has no file at the path of the document, the pull is answered with
  200 and the document alone.
\<close>

lemma pull_no_file:
  assumes "kss_auth req fs = Inr (Some user)" and "fs (kss_path user document) = None"
  shows "pull bi req document fs = Inr (Response [(''document'', JStr document)] 200)"
  using assms by (simp add: pull_def kss_response_def)

text \<open>
  C9. \<open>alice\<close> registers on an empty server and pulls the document name \<open>auth\<close>;
  nothing has been pushed. The path of this document is her credential file, so the
  pull finds a file, copies none of the five fields from it, and is answered with 200
  and no field at all: the document is not in the answer.
\<close>

theorem pull_auth_after_register:
  "pull whole_floats \<lparr>headers = alice_headers, is_json = False, get_json = None\<rparr> ''auth''
     (snd (register False
             \<lparr>headers = Map.empty, is_json = True,
              get_json = Some (JObj [(''username'', JStr ''alice''),
                                     (''password'', JStr ''3858f62230ac3c915f300c664312c63f'')])\<rparr>
             Map.empty)) =
   Inr (Response [] 200)"
proof -
  have f: "alice_files (kss_path ''alice'' ''auth'') =
             Some (JObj [(''x-auth-user'', JStr ''alice''),
                         (''x-auth-key'', JStr ''3858f62230ac3c915f300c664312c63f'')])"
    by (simp add: kss_path_auth_alias alice_files_def)
  have "pull whole_floats \<lparr>headers = alice_headers, is_json = False, get_json = None\<rparr> ''auth''
          alice_files = Inr (Response [] 200)"
    by (simp add: pull_def alice_auth f kss_response_def pull_fields_concat dict_get_def)
  then show ?thesis by (simp add: register_alice)
qed

lemma pull_fields_percentage:
  "map_of (pull_fields bi js) ''percentage'' =
     (if truthy bi (dict_get js ''percentage'' JNull)
      then map_option JFloat (py_float bi (dict_get js ''percentage'' JNull)) else None)"
  by (cases "truthy bi (dict_get js ''percentage'' JNull)";
      cases "py_float bi (dict_get js ''percentage'' JNull)";
      cases "truthy bi (dict_get js ''timestamp'' JNull)";
      cases "py_int bi (dict_get js ''timestamp'' JNull)")
     (simp_all add: pull_fields_concat)

lemma pull_fields_progress:
  "map_of (pull_fields bi js) ''progress'' =
     (if truthy bi (dict_get js ''progress'' JNull)
      then Some (dict_get js ''progress'' JNull) else None)"
  by (cases "truthy bi (dict_get js ''percentage'' JNull)";
      cases "py_float bi (dict_get js ''percentage'' JNull)";
      cases "truthy bi (dict_get js ''timestamp'' JNull)";
      cases "py_int bi (dict_get js ''timestamp'' JNull)")
     (simp_all add: pull_fields_concat)

lemma pull_fields_device:
  "map_of (pull_fields bi js) ''device'' =
     (if truthy bi (dict_get js ''device'' JNull)
      then Some (dict_get js ''device'' JNull) else None)"
  by (cases "truthy bi (dict_get js ''percentage'' JNull)";
      cases "py_float bi (dict_get js ''percentage'' JNull)";
      cases "truthy bi (dict_get js ''timestamp'' JNull)";
      cases "py_int bi (dict_get js ''timestamp'' JNull)")
     (simp_all add: pull_fields_concat)

lemma pull_fields_device_id:
  "map_of (pull_fields bi js) ''device_id'' =
     (if truthy bi (dict_get js ''device_id'' JNull)
      then Some (dict_get js ''device_id'' JNull) else None)"
  by (cases "truthy bi (dict_get js ''percentage'' JNull)";
      cases "py_float bi (dict_get js ''percentage'' JNull)";
      cases "truthy bi (dict_get js ''timestamp'' JNull)";
      cases "py_int bi (dict_get js ''timestamp'' JNull)")
     (simp_all add: pull_fields_concat)

lemma pull_fields_timestamp:
  "map_of (pull_fields bi js) ''timestamp'' =
     (if truthy bi (dict_get js ''timestamp'' JNull)
      then map_option JInt (py_int bi (dict_get js ''timestamp'' JNull)) else None)"
  by (cases "truthy bi (dict_get js ''percentage'' JNull)";
      cases "py_float bi (dict_get js ''percentage'' JNull)";
      cases "truthy bi (dict_get js ''timestamp'' JNull)";
      cases "py_int bi (dict_get js ''timestamp'' JNull)")
     (simp_all add: pull_fields_concat)

text \<open>
  C3 (amended). An authenticated pull of a document that has a stored record is
  answered with 200 and, of \<open>percentage\<close>, \<open>progress\<close>, \<open>device\<close>, \<open>device_id\<close> and
  \<open>timestamp\<close>, exactly the fields whose stored value is truthy (present, and not
  null, zero, false or empty) and, for \<open>percentage\<close> and \<open>timestamp\<close>, converts to a
  float and to an integer; \<open>percentage\<close> and \<open>timestamp\<close> are answered converted, the
  other three as stored.
\<close>

theorem pull_stored_record:
  assumes "kss_auth req fs = Inr (Some user)" and "fs (kss_path user document) = Some (JObj js)"
  shows "pull bi req document fs = Inr (Response (pull_fields bi js) 200)
       \<and> map_of (pull_fields bi js) ''percentage'' =
           (if truthy bi (dict_get js ''percentage'' JNull)
            then map_option JFloat (py_float bi (dict_get js ''percentage'' JNull)) else None)
       \<and> (\<forall>k \<in> {''progress'', ''device'', ''device_id''}.
             map_of (pull_fields bi js) k =
               (if truthy bi (dict_get js k JNull) then Some (dict_get js k JNull) else None))
       \<and> map_of (pull_fields bi js) ''timestamp'' =
           (if truthy bi (dict_get js ''timestamp'' JNull)
            then map_option JInt (py_int bi (dict_get js ''timestamp'' JNull)) else None)"
  using assms
  by (simp add: pull_def kss_response_def pull_fields_percentage pull_fields_progress
      pull_fields_device pull_fields_device_id pull_fields_timestamp)

theorem pull_stored_record_witness:
  "kss_auth \<lparr>headers = alice_headers, is_json = False, get_json = None\<rparr>
     (alice_files(kss_path ''alice'' ''d1'' \<mapsto>
        JObj [(''document'', JStr ''d1''), (''percentage'', JStr ''half''),
              (''progress'', JStr ''/body''), (''device'', JNull), (''device_id'', JNull),
              (''timestamp'', JInt 1751935136)])) = Inr (Some ''alice'')
   \<and> pull whole_floats \<lparr>headers = alice_headers, is_json = False, get_json = None\<rparr> ''d1''
     (alice_files(kss_path ''alice'' ''d1'' \<mapsto>
        JObj [(''document'', JStr ''d1''), (''percentage'', JStr ''half''),
              (''progress'', JStr ''/body''), (''device'', JNull), (''device_id'', JNull),
              (''timestamp'', JInt 1751935136)])) =
     Inr (Response [(''progress'', JStr ''/body''), (''timestamp'', JInt 1751935136)] 200)"
proof -
  have a: "kss_auth \<lparr>headers = alice_headers, is_json = False, get_json = None\<rparr>
     (alice_files(kss_path ''alice'' ''d1'' \<mapsto>
        JObj [(''document'', JStr ''d1''), (''percentage'', JStr ''half''),
              (''progress'', JStr ''/body''), (''device'', JNull), (''device_id'', JNull),
              (''timestamp'', JInt 1751935136)])) = Inr (Some ''alice'')"
    by (simp add: kss_auth_def kss_auth_headers_def alice_headers_def alice_files_def
        kss_auth_file_def kss_path_def kss_dir_def)
  show ?thesis
    using pull_stored_record [OF a, of "''d1''"
        "[(''document'', JStr ''d1''), (''percentage'', JStr ''half''),
          (''progress'', JStr ''/body''), (''device'', JNull), (''device_id'', JNull),
          (''timestamp'', JInt 1751935136)]" whole_floats] a
    by (simp add: pull_fields_concat dict_get_def whole_floats_def)
qed

text \<open>
  The claim as it stands fails: a push of the document \<open>d1\<close> with the percentage 0
  and a device, then a pull of \<open>d1\<close>. The stored record holds the percentage 0, which
  converts; the answer has neither \<open>percentage\<close> nor \<open>document\<close>.
\<close>

theorem pull_stored_record_counterexample:
  "pull whole_floats \<lparr>headers = alice_headers, is_json = False, get_json = None\<rparr> ''d1''
     (snd (push whole_floats 1751935136
             \<lparr>headers = alice_headers, is_json = True,
              get_json = Some (JObj [(''document'', JStr ''d1''), (''percentage'', JInt 0),
                                     (''device'', JStr ''X'')])\<rparr>
             alice_files)) =
   Inr (Response [(''device'', JStr ''X''), (''timestamp'', JInt 1751935136)] 200)"
  by (simp add: push_def alice_auth Let_def dict_get_def stamped_def coerce_percentage_def
      setdefault_def dict_set_def kss_response_def pull_def pull_fields_def
      kss_auth_def kss_auth_headers_def alice_headers_def alice_files_def
      kss_auth_file_def kss_path_def kss_dir_def)

subsection \<open>Registration\<close>

text \<open>\<^verbatim>\<open>register\<close> writes no file that exists already.\<close>

lemma register_keeps_files:
  assumes "fs p = Some c"
  shows "snd (register d req fs) p = Some c"
  using assms
  by (auto simp: register_def split: option.splits json.splits list.splits if_splits)

text \<open>
  C5 (amended). For a user name that is registered already, with registration not
  disabled: a registration request with a JSON body whose \<open>username\<close> is this name and
  whose \<open>password\<close> is a string that is not empty is answered with 402 and code 2002,
  whatever the password, and changes no file; and no registration request at all,
  whatever its payload, changes the stored credential.
\<close>

theorem register_existing_user:
  assumes "\<not> registration_disabled" and "user \<noteq> []" and "fs (kss_auth_file user) = Some c"
  shows "(is_json req \<and> get_json req = Some (JObj js) \<and> map_of js ''username'' = Some (JStr user)
            \<and> map_of js ''password'' = Some (JStr password_md5) \<and> password_md5 \<noteq> []
          \<longrightarrow> register registration_disabled req fs =
                (Inr (Response [(''message'', JStr ''Username is already registered''),
                                (''code'', JInt 2002)] 402), fs))
       \<and> snd (register registration_disabled req' fs) (kss_auth_file user) = Some c"
  using assms register_keeps_files [of fs "kss_auth_file user" c registration_disabled req']
  by (simp add: register_def dict_get_def kss_error_def)

theorem register_existing_user_witness:
  "\<not> False \<and> ''alice'' \<noteq> []
   \<and> alice_files (kss_auth_file ''alice'') =
       Some (JObj [(''x-auth-user'', JStr ''alice''),
                   (''x-auth-key'', JStr ''3858f62230ac3c915f300c664312c63f'')])
   \<and> register False
        \<lparr>headers = Map.empty, is_json = True,
         get_json = Some (JObj [(''username'', JStr ''alice''), (''password'', JStr ''other'')])\<rparr>
        alice_files =
      (Inr (Response [(''message'', JStr ''Username is already registered''),
                      (''code'', JInt 2002)] 402), alice_files)"
proof -
  have c: "alice_files (kss_auth_file ''alice'') =
       Some (JObj [(''x-auth-user'', JStr ''alice''),
                   (''x-auth-key'', JStr ''3858f62230ac3c915f300c664312c63f'')])"
    by (simp add: alice_files_def)
  show ?thesis
    using register_existing_user [of False "''alice''" alice_files _
        "\<lparr>headers = Map.empty, is_json = True,
          get_json = Some (JObj [(''username'', JStr ''alice''), (''password'', JStr ''other'')])\<rparr>"
        "[(''username'', JStr ''alice''), (''password'', JStr ''other'')]" "''other''", OF _ _ c] c
    by simp
qed

text \<open>
  The claim as it stands fails: the payload is checked before the user name is looked
  up, so a second registration of \<open>alice\<close> that sends no password is answered with 403
  and code 2003.
\<close>

theorem register_existing_user_counterexample:
  "register False
     \<lparr>headers = Map.empty, is_json = True,
      get_json = Some (JObj [(''username'', JStr ''alice'')])\<rparr> alice_files =
   (Inr (Response [(''message'', JStr ''Invalid request''), (''code'', JInt 2003)] 403), alice_files)
   \<and> alice_files (kss_auth_file ''alice'') \<noteq> None"
  by (simp add: register_def dict_get_def kss_error_def alice_files_def)

subsection \<open>A push of the document name \<open>auth\<close>\<close>

text \<open>
  C6. \<open>alice\<close> is registered and pushes the document name \<open>auth\<close>: the record is
  written to her credential file. From then on \<^verbatim>\<open>kss_auth\<close> raises \<^verbatim>\<open>KeyError\<close> on her
  requests, and so does a pull: the request is neither authorised nor answered with
  401 and code 2001.
\<close>

theorem kss_auth_after_push_auth:
  "kss_auth \<lparr>headers = alice_headers, is_json = False, get_json = None\<rparr>
     (snd (push whole_floats 1751935136
             \<lparr>headers = alice_headers, is_json = True,
              get_json = Some (JObj [(''document'', JStr ''auth'')])\<rparr>
             alice_files)) = Inl KeyError
   \<and> pull whole_floats \<lparr>headers = alice_headers, is_json = False, get_json = None\<rparr> ''d1''
     (snd (push whole_floats 1751935136
             \<lparr>headers = alice_headers, is_json = True,
              get_json = Some (JObj [(''document'', JStr ''auth'')])\<rparr>
             alice_files)) = Inl KeyError"
proof -
  have "snd (push whole_floats 1751935136
             \<lparr>headers = alice_headers, is_json = True,
              get_json = Some (JObj [(''document'', JStr ''auth'')])\<rparr>
             alice_files) (kss_auth_file ''alice'') =
        Some (JObj [(''document'', JStr ''auth''), (''progress'', JNull), (''device'', JNull),
                    (''device_id'', JNull), (''timestamp'', JInt 1751935136)])"
    by (simp add: push_def alice_auth Let_def dict_get_def stamped_def coerce_percentage_def
        setdefault_def dict_set_def kss_response_def kss_path_auth_alias)
  then have "kss_auth \<lparr>headers = alice_headers, is_json = False, get_json = None\<rparr>
     (snd (push whole_floats 1751935136
             \<lparr>headers = alice_headers, is_json = True,
              get_json = Some (JObj [(''document'', JStr ''auth'')])\<rparr>
             alice_files)) = Inl KeyError"
    by (simp add: kss_auth_def kss_auth_headers_def alice_headers_def)
  then show ?thesis by (simp add: pull_def)
qed

end
